theory Spec2Isabelle
  imports Complex_Main "HOL-Library.Word"
begin

unbundle bit_operations_syntax

section \<open>The lookup table of LookupTable.h\<close>

text \<open>
  The class template \<^verbatim>\<open>LookupTable<T, TABLE_SIZE>\<close> holds two arrays and has one
  operation, \<^verbatim>\<open>get\<close>.

  \<^item> The index type \<^verbatim>\<open>size_t\<close> is a 64-bit word: subtraction wraps, the shift and the
    masks work bitwise.
  \<^item> The element type \<^verbatim>\<open>T\<close> is a type parameter \<open>'a\<close>. The definitions use only its
    comparisons \<open>\<le>\<close> and \<open><\<close> and its \<open>0\<close>, as the template does; a theorem that
    needs the laws of an order says so in the sort of its type (\<open>linorder\<close>).
  \<^item> The interpolation computes in two types: differences and products of samples in
    \<^verbatim>\<open>T\<close>, everything else in \<^verbatim>\<open>double\<close> (line 90 declares \<^verbatim>\<open>double denom\<close>, so
    line 96 divides, multiplies and adds in \<^verbatim>\<open>double\<close>), and the result is converted
    back to \<^verbatim>\<open>T\<close> by \<^verbatim>\<open>return\<close>. \<^verbatim>\<open>double\<close> is a second type parameter \<open>'d\<close>, and
    the arithmetic of \<^verbatim>\<open>T\<close> and the two conversions are parameters of \<open>get\<close>, collected
    in a record \<open>numeric\<close>. The general theorems hold for every such record: they assume
    neither exact arithmetic nor an identity conversion.
  \<^item> \<^verbatim>\<open>std::array<T, TABLE_SIZE>\<close> is a list whose length is \<^verbatim>\<open>TABLE_SIZE\<close>; the
    template parameter is an explicit argument of \<open>get\<close>.
  \<^item> Reading an array outside its bounds is undefined behaviour in C++; in the model
    it is the error \<open>OutOfBounds\<close>. A division whose divisor is zero is the error
    \<open>DivisionByZero\<close>. An operation of \<^verbatim>\<open>T\<close> or a conversion back to \<^verbatim>\<open>T\<close> that C++
    leaves undefined (signed overflow, a \<^verbatim>\<open>double\<close> outside the range of an integer
    \<^verbatim>\<open>T\<close>) is the error \<open>UndefinedArithmetic\<close>.
\<close>

type_synonym size_t = "64 word"

datatype error = OutOfBounds | DivisionByZero | UndefinedArithmetic

record 'a LookupTable =
  m_x :: "'a list"
  m_f :: "'a list"

text \<open>The type \<^verbatim>\<open>std::array<T, TABLE_SIZE>\<close>: exactly \<^verbatim>\<open>TABLE_SIZE\<close> elements.\<close>

definition std_array :: "size_t \<Rightarrow> 'a list \<Rightarrow> bool" where
  "std_array TABLE_SIZE xs = (length xs = unat TABLE_SIZE)"

text \<open>The constructor copies its two arguments into the members (lines 24-29).\<close>

definition new_LookupTable :: "'a list \<Rightarrow> 'a list \<Rightarrow> 'a LookupTable" where
  "new_LookupTable x f = \<lparr>m_x = x, m_f = f\<rparr>"

text \<open>\<^verbatim>\<open>operator[]\<close>, \<^verbatim>\<open>front()\<close> and \<^verbatim>\<open>back()\<close> of \<^verbatim>\<open>std::array\<close>
  (\<open>back\<close> is a proof command and \<open>at\<close> a constant of HOL, hence \<open>back_elem\<close> and \<open>array_at\<close>).\<close>

definition array_at :: "'a list \<Rightarrow> size_t \<Rightarrow> error + 'a" where
  "array_at xs i = (if unat i < length xs then Inr (xs ! unat i) else Inl OutOfBounds)"

definition front :: "'a list \<Rightarrow> error + 'a" where
  "front xs = (if xs = [] then Inl OutOfBounds else Inr (hd xs))"

definition back_elem :: "'a list \<Rightarrow> error + 'a" where
  "back_elem xs = (if xs = [] then Inl OutOfBounds else Inr (last xs))"

subsection \<open>The two arithmetic types\<close>

text \<open>
  What lines 90 and 96 use of the element type and of \<^verbatim>\<open>double\<close>:
  \<^item> \<open>minus_T\<close> and \<open>times_T\<close>: \<^verbatim>\<open>a - b\<close> and \<^verbatim>\<open>a * b\<close> on two values of type \<^verbatim>\<open>T\<close>;
    \<open>None\<close> where C++ leaves the result undefined (overflow of a signed integer);
  \<^item> \<open>to_double\<close>: the conversion of a \<^verbatim>\<open>T\<close> to \<^verbatim>\<open>double\<close> (of the difference assigned to
    \<^verbatim>\<open>denom\<close>, and of each \<^verbatim>\<open>T\<close> operand that meets a \<^verbatim>\<open>double\<close> in line 96);
  \<^item> \<open>to_T\<close>: the conversion of the \<^verbatim>\<open>double\<close> result to the return type \<^verbatim>\<open>T\<close>;
    \<open>None\<close> where it is undefined (an integer \<^verbatim>\<open>T\<close> that cannot hold the truncated
    value).
  The arithmetic of \<^verbatim>\<open>double\<close> itself (\<open>/\<close>, \<open>*\<close>, \<open>+\<close>) and its \<open>0\<close> are the operations of
  the type \<open>'d\<close>. This covers the element types whose common type with \<^verbatim>\<open>double\<close> is
  \<^verbatim>\<open>double\<close> and whose own arithmetic is done in \<^verbatim>\<open>T\<close>: \<^verbatim>\<open>int\<close> and wider integers,
  \<^verbatim>\<open>float\<close>, \<^verbatim>\<open>double\<close>.
\<close>

record ('a, 'd) numeric =
  minus_T :: "'a \<Rightarrow> 'a \<Rightarrow> 'a option"
  times_T :: "'a \<Rightarrow> 'a \<Rightarrow> 'a option"
  to_double :: "'a \<Rightarrow> 'd"
  to_T :: "'d \<Rightarrow> 'a option"

definition defined :: "'a option \<Rightarrow> error + 'a" where
  "defined r = (case r of None \<Rightarrow> Inl UndefinedArithmetic | Some v \<Rightarrow> Inr v)"

text \<open>The division in \<^verbatim>\<open>double\<close>, with the zero divisor made visible.\<close>

definition fdiv :: "'d::{zero,inverse} \<Rightarrow> 'd \<Rightarrow> error + 'd" where
  "fdiv a b = (if b = 0 then Inl DivisionByZero else Inr (a / b))"

subsection \<open>The loop body (lines 57-85)\<close>

text \<open>
  Line 63, \<^verbatim>\<open>size_t mask = -static_cast<long>(cmp)\<close>: \<open>cmp\<close> read as a signed
  integer, negated, and converted back to \<^verbatim>\<open>size_t\<close> (modulo \<open>2 ^ 64\<close>).
\<close>

definition mask_of :: "size_t \<Rightarrow> size_t" where
  "mask_of cmp = word_of_int (- sint cmp)"

text \<open>Lines 84 and 85 (the variable \<^verbatim>\<open>mask\<close> is \<open>msk\<close>: \<open>mask\<close> is a constant of HOL).\<close>

definition select_low :: "size_t \<Rightarrow> size_t \<Rightarrow> size_t \<Rightarrow> size_t" where
  "select_low mid low msk = (mid AND msk) OR (low AND NOT msk)"

definition select_high :: "size_t \<Rightarrow> size_t \<Rightarrow> size_t \<Rightarrow> size_t" where
  "select_high mid high msk = (mid AND NOT msk) OR (high AND msk)"

text \<open>Line 57.\<close>

definition midpoint :: "size_t \<Rightarrow> size_t \<Rightarrow> size_t" where
  "midpoint low high = low + drop_bit 1 (high - low)"

text \<open>One iteration: from \<open>(low, high)\<close> to the next pair, or the error of reading \<open>m_x[mid]\<close>.\<close>

definition search_step :: "'a::ord list \<Rightarrow> 'a \<Rightarrow> size_t \<Rightarrow> size_t \<Rightarrow> error + (size_t \<times> size_t)" where
  "search_step x t low high =
     (let mid = midpoint low high in
      case array_at x mid of
        Inl e \<Rightarrow> Inl e
      | Inr xm \<Rightarrow>
          let cmp = (of_bool (t > xm) :: size_t);
              msk = mask_of cmp
          in Inr (select_low mid low msk, select_high mid high msk))"

subsection \<open>The loop (lines 54-86)\<close>

function search :: "'a::ord list \<Rightarrow> 'a \<Rightarrow> size_t \<Rightarrow> size_t \<Rightarrow> error + (size_t \<times> size_t)" where
  "search x t low high =
     (if high - low > 1 then
        (case search_step x t low high of
           Inl e \<Rightarrow> Inl e
         | Inr (low', high') \<Rightarrow> search x t low' high')
      else Inr (low, high))"
  by pat_completeness auto

text \<open>
  The loop ends for every pair of bounds, also wrapped-around ones: the distance
  \<open>high - low\<close>, read as an unsigned number, is halved (rounded down for the new
  \<open>high\<close>, up for the new \<open>low\<close>) by every iteration.
\<close>

lemma mask_of_of_bool: "mask_of (of_bool b) = (if b then - 1 else 0)"
  by (simp add: mask_of_def)

lemma select_low_simps: "select_low mid low (- 1) = mid" "select_low mid low 0 = low"
  by (simp_all add: select_low_def)

lemma select_high_simps: "select_high mid high (- 1) = high" "select_high mid high 0 = mid"
  by (simp_all add: select_high_def)

lemma search_step_branch:
  "search_step x t low high =
     (case array_at x (midpoint low high) of
        Inl e \<Rightarrow> Inl e
      | Inr xm \<Rightarrow> Inr (if t > xm then (midpoint low high, high) else (low, midpoint low high)))"
  by (simp add: search_step_def Let_def mask_of_of_bool select_low_simps select_high_simps
        split: sum.splits)

lemma midpoint_minus_low: "midpoint low high - low = drop_bit 1 (high - low)"
  by (simp add: midpoint_def)

lemma high_minus_midpoint: "high - midpoint low high = (high - low) - drop_bit 1 (high - low)"
  by (simp add: midpoint_def)

lemma unat_half: "unat (drop_bit 1 (d::size_t)) = unat d div 2"
  by (simp add: drop_bit_eq_div unat_div)

lemma unat_half_less: "1 < (d::size_t) \<Longrightarrow> unat (drop_bit 1 d) < unat d"
  unfolding unat_half word_less_nat_alt by simp

lemma unat_rest: "unat (d - drop_bit 1 d) = unat d - unat (d::size_t) div 2"
proof -
  have le: "drop_bit 1 d \<le> d"
    unfolding word_le_nat_alt unat_half by simp
  show ?thesis
    unfolding unat_sub [OF le] unat_half by simp
qed

lemma unat_rest_less: "1 < (d::size_t) \<Longrightarrow> unat (d - drop_bit 1 d) < unat d"
  unfolding unat_rest word_less_nat_alt by simp

termination search
proof (relation "measure (\<lambda>(x, t, low, high). unat (high - low))")
  show "wf (measure (\<lambda>(x, t, low, high). unat (high - low)))"
    by simp
next
  fix x :: "'a list" and t :: 'a and low high :: size_t and y and low' high' :: size_t
  assume d: "1 < high - low"
    and step: "search_step x t low high = Inr y"
    and y: "(low', high') = y"
  from step y
  have "(low', high') = (midpoint low high, high) \<or> (low', high') = (low, midpoint low high)"
    by (auto simp: search_step_branch split: sum.splits if_splits)
  then have "unat (high' - low') < unat (high - low)"
    using unat_half_less [OF d] unat_rest_less [OF d]
    by (auto simp: midpoint_minus_low high_minus_midpoint)
  then show "((x, t, low', high'), x, t, low, high)
      \<in> measure (\<lambda>(x, t, low, high). unat (high - low))"
    by simp
qed

declare search.simps [simp del]

subsection \<open>The interpolation (lines 89-96)\<close>

text \<open>
  Line 90: \<^verbatim>\<open>double denom = (m_x[high] - m_x[low])\<close>, the difference taken in \<^verbatim>\<open>T\<close> and
  converted. Line 96:
  \<^verbatim>\<open>(m_f[high] - m_f[low]) / denom * t + (m_x[high] * m_f[low] - m_x[low] * m_f[high]) / denom\<close>,
  where the two parenthesised operands are computed in \<^verbatim>\<open>T\<close>, then converted because
  \<^verbatim>\<open>denom\<close> is a \<^verbatim>\<open>double\<close>; \<^verbatim>\<open>t\<close> is converted for the product; the sum is converted
  to \<^verbatim>\<open>T\<close> by \<^verbatim>\<open>return\<close>. The operands are taken from left to right.
\<close>

definition interpolate :: "('a::zero, 'd::{zero,plus,times,inverse}) numeric \<Rightarrow> 'a LookupTable \<Rightarrow> 'a \<Rightarrow> size_t \<Rightarrow> size_t \<Rightarrow> error + 'a" where
  "interpolate num tbl t low high =
     (case array_at (m_x tbl) high of Inl e \<Rightarrow> Inl e | Inr xh \<Rightarrow>
     (case array_at (m_x tbl) low of Inl e \<Rightarrow> Inl e | Inr xl \<Rightarrow>
     (case defined (minus_T num xh xl) of Inl e \<Rightarrow> Inl e | Inr dx \<Rightarrow>
       (let denom = to_double num dx in
        if denom = 0 then Inr 0
        else
         (case array_at (m_f tbl) high of Inl e \<Rightarrow> Inl e | Inr fh \<Rightarrow>
         (case array_at (m_f tbl) low of Inl e \<Rightarrow> Inl e | Inr fl \<Rightarrow>
         (case defined (minus_T num fh fl) of Inl e \<Rightarrow> Inl e | Inr df \<Rightarrow>
         (case fdiv (to_double num df) denom of Inl e \<Rightarrow> Inl e | Inr slope \<Rightarrow>
         (case defined (times_T num xh fl) of Inl e \<Rightarrow> Inl e | Inr p \<Rightarrow>
         (case defined (times_T num xl fh) of Inl e \<Rightarrow> Inl e | Inr q \<Rightarrow>
         (case defined (minus_T num p q) of Inl e \<Rightarrow> Inl e | Inr c \<Rightarrow>
         (case fdiv (to_double num c) denom of Inl e \<Rightarrow> Inl e | Inr intercept \<Rightarrow>
            defined (to_T num (slope * to_double num t + intercept))))))))))))))"

subsection \<open>\<^verbatim>\<open>get\<close> (lines 31-97)\<close>

text \<open>The guard of line 34.\<close>

definition degenerate_table :: "'a LookupTable \<Rightarrow> bool" where
  "degenerate_table tbl = (length (m_x tbl) = 0 \<or> length (m_f tbl) \<noteq> length (m_x tbl))"

text \<open>Lines 49 and 50: the bounds the loop starts from.\<close>

definition search_init :: "size_t \<Rightarrow> size_t \<times> size_t" where
  "search_init TABLE_SIZE = (0, TABLE_SIZE)"

definition get :: "('a::{ord,zero}, 'd::{zero,plus,times,inverse}) numeric \<Rightarrow> size_t \<Rightarrow> 'a LookupTable \<Rightarrow> 'a \<Rightarrow> error + 'a" where
  "get num TABLE_SIZE tbl t =
     (if degenerate_table tbl then Inr 0
      else
       (case front (m_x tbl) of Inl e \<Rightarrow> Inl e | Inr x_front \<Rightarrow>
          if t \<le> x_front then front (m_f tbl)
          else
           (case back_elem (m_x tbl) of Inl e \<Rightarrow> Inl e | Inr x_back \<Rightarrow>
              if t \<ge> x_back then back_elem (m_f tbl)
              else
               (case search_init TABLE_SIZE of (low0, high0) \<Rightarrow>
               (case search (m_x tbl) t low0 high0 of Inl e \<Rightarrow> Inl e | Inr (low, high) \<Rightarrow>
                  interpolate num tbl t low high)))))"

subsection \<open>The branching binary search of the specification\<close>

text \<open>
  The specification describes the update of the bounds as
  \<^verbatim>\<open>low = cmp ? mid : low; high = cmp ? high : mid\<close> with
  \<^verbatim>\<open>mid = low + (high - low) / 2\<close> (integer floor division). This second
  definition follows those words, with an ordinary conditional; it is compared with
  \<open>search\<close>, which follows the source.
\<close>

function search_branching :: "'a::ord list \<Rightarrow> 'a \<Rightarrow> size_t \<Rightarrow> size_t \<Rightarrow> error + (size_t \<times> size_t)" where
  "search_branching x t low high =
     (if high - low > 1 then
        (case array_at x (low + (high - low) div 2) of
           Inl e \<Rightarrow> Inl e
         | Inr xm \<Rightarrow>
             if t > xm then search_branching x t (low + (high - low) div 2) high
             else search_branching x t low (low + (high - low) div 2))
      else Inr (low, high))"
  by pat_completeness auto
termination
proof (relation "measure (\<lambda>(x, t, low, high). unat (high - low))")
  show "wf (measure (\<lambda>(x, t, low, high). unat (high - low)))"
    by simp
next
  fix x :: "'a list" and t :: 'a and low high :: size_t
  assume d: "1 < high - low"
  have "high - (low + (high - low) div 2) = (high - low) - drop_bit 1 (high - low)"
    by (simp add: drop_bit_eq_div)
  then have "unat (high - (low + (high - low) div 2)) < unat (high - low)"
    using unat_rest_less [OF d] by (simp only:)
  then show "((x, t, low + (high - low) div 2, high), x, t, low, high)
      \<in> measure (\<lambda>(x, t, low, high). unat (high - low))"
    by simp
next
  fix x :: "'a list" and t :: 'a and low high :: size_t
  assume d: "1 < high - low"
  have "low + (high - low) div 2 - low = drop_bit 1 (high - low)"
    by (simp add: drop_bit_eq_div)
  then have "unat (low + (high - low) div 2 - low) < unat (high - low)"
    using unat_half_less [OF d] by (simp only:)
  then show "((x, t, low, low + (high - low) div 2), x, t, low, high)
      \<in> measure (\<lambda>(x, t, low, high). unat (high - low))"
    by simp
qed

declare search_branching.simps [simp del]

subsection \<open>Instances of the element type\<close>

text \<open>
  The claims are proved for every \<open>numeric\<close>. Concrete tables are evaluated at three
  instances.

  \<^verbatim>\<open>T = double\<close>: no conversion, and no operation is undefined. At the type \<open>real\<close> its
  arithmetic is exact, which \<^verbatim>\<open>double\<close> is on the inputs used here (small integers and
  halves); rounding and infinities are not modelled.
\<close>

definition double_T :: "('a::{minus,times}, 'a) numeric" where
  "double_T = \<lparr>minus_T = (\<lambda>a b. Some (a - b)), times_T = (\<lambda>a b. Some (a * b)),
               to_double = (\<lambda>a. a), to_T = Some\<rparr>"

text \<open>
  \<^verbatim>\<open>T = int\<close> (32 bits): overflow is undefined, the conversion to \<^verbatim>\<open>double\<close> is exact, the
  conversion back truncates towards zero and is undefined outside the range of
  \<^verbatim>\<open>int\<close>. \<^verbatim>\<open>double\<close> is \<open>real\<close>, as above.
\<close>

definition int_range :: "int \<Rightarrow> int option" where
  "int_range z = (if - (2 ^ 31) \<le> z \<and> z < 2 ^ 31 then Some z else None)"

definition towards_zero :: "real \<Rightarrow> int" where
  "towards_zero r = (if 0 \<le> r then \<lfloor>r\<rfloor> else \<lceil>r\<rceil>)"

definition int_T :: "(int, real) numeric" where
  "int_T = \<lparr>minus_T = (\<lambda>a b. int_range (a - b)), times_T = (\<lambda>a b. int_range (a * b)),
            to_double = real_of_int, to_T = (\<lambda>d. int_range (towards_zero d))\<rparr>"

text \<open>
  \<^verbatim>\<open>T = double\<close> with a NaN: the comparisons of \<^verbatim>\<open>double\<close> are not a linear order, every
  comparison with a NaN is false, and arithmetic on a NaN gives a NaN. The type \<open>'a fp\<close>
  adds such a value to the numbers \<open>'a\<close>; \<open>double_T\<close> at \<open>real fp\<close> is the instance.
  (A quotient by zero is \<open>NaN\<close> here; \<open>get\<close> never forms one, it goes through \<open>fdiv\<close>.)
\<close>

datatype 'a fp = NaN | Num 'a

instantiation fp :: (ord) ord
begin

fun less_eq_fp :: "'a fp \<Rightarrow> 'a fp \<Rightarrow> bool" where
  "less_eq_fp (Num a) (Num b) = (a \<le> b)"
| "less_eq_fp _ _ = False"

fun less_fp :: "'a fp \<Rightarrow> 'a fp \<Rightarrow> bool" where
  "less_fp (Num a) (Num b) = (a < b)"
| "less_fp _ _ = False"

instance ..

end

instantiation fp :: (zero) zero
begin

definition zero_fp :: "'a fp" where
  "zero_fp = Num 0"

instance ..

end

instantiation fp :: (plus) plus
begin

fun plus_fp :: "'a fp \<Rightarrow> 'a fp \<Rightarrow> 'a fp" where
  "plus_fp (Num a) (Num b) = Num (a + b)"
| "plus_fp _ _ = NaN"

instance ..

end

instantiation fp :: (minus) minus
begin

fun minus_fp :: "'a fp \<Rightarrow> 'a fp \<Rightarrow> 'a fp" where
  "minus_fp (Num a) (Num b) = Num (a - b)"
| "minus_fp _ _ = NaN"

instance ..

end

instantiation fp :: (times) times
begin

fun times_fp :: "'a fp \<Rightarrow> 'a fp \<Rightarrow> 'a fp" where
  "times_fp (Num a) (Num b) = Num (a * b)"
| "times_fp _ _ = NaN"

instance ..

end

instantiation fp :: (field) inverse
begin

fun divide_fp :: "'a fp \<Rightarrow> 'a fp \<Rightarrow> 'a fp" where
  "divide_fp (Num a) (Num b) = (if b = 0 then NaN else Num (a / b))"
| "divide_fp _ _ = NaN"

fun inverse_fp :: "'a fp \<Rightarrow> 'a fp" where
  "inverse_fp (Num a) = (if a = 0 then NaN else Num (inverse a))"
| "inverse_fp _ = NaN"

instance ..

end


section \<open>The search\<close>

subsection \<open>Index arithmetic without wrap-around\<close>

lemma unat_diff:
  fixes low high :: size_t
  shows "unat low < unat high \<Longrightarrow> unat (high - low) = unat high - unat low"
  by (simp add: unat_sub word_le_nat_alt)

lemma unat_midpoint:
  assumes "unat low < unat high"
  shows "unat (midpoint low high) = unat low + (unat high - unat low) div 2"
proof -
  have h: "unat (drop_bit 1 (high - low)) = (unat high - unat low) div 2"
    unfolding unat_half unat_diff [OF assms] ..
  have "unat high < 2 ^ LENGTH(64)"
    by (rule unsigned_less)
  with assms have "unat low + unat (drop_bit 1 (high - low)) < 2 ^ LENGTH(64)"
    unfolding h by arith
  then have "unat (low + drop_bit 1 (high - low)) = unat low + unat (drop_bit 1 (high - low))"
    by (simp only: unat_add_lem)
  then show ?thesis
    unfolding midpoint_def h .
qed

lemma loop_exit:
  fixes low high :: size_t
  assumes "unat low < unat high" "\<not> 1 < high - low"
  shows "high = low + 1" "unat high = unat low + 1"
proof -
  from assms show u: "unat high = unat low + 1"
    unfolding word_less_nat_alt unat_diff [OF assms(1)] by simp
  have "unat high < 2 ^ LENGTH(64)"
    by (rule unsigned_less)
  with u have "unat low + unat (1::size_t) < 2 ^ LENGTH(64)"
    by simp
  then have "unat (low + 1) = unat low + unat (1::size_t)"
    by (simp only: unat_add_lem)
  with u show "high = low + 1"
    by (simp add: word_unat_eq_iff)
qed

subsection \<open>The invariant of the loop\<close>

text \<open>
  While the loop runs, \<open>low < high \<le> N\<close>; \<open>x[low] < t\<close> once \<open>low\<close> has left its
  initial value 0; and \<open>t > x[high]\<close> is false once \<open>high\<close> has left its initial value
  \<open>N\<close>. Every \<open>mid\<close> lies strictly between \<open>low\<close> and \<open>high\<close>, so \<open>x[mid]\<close> is read
  within the table. No law of the order is needed.
\<close>

lemma search_invariant:
  fixes x :: "'a::ord list"
  assumes "unat low < unat high" "unat high \<le> length x"
    "unat low \<noteq> 0 \<longrightarrow> x ! unat low < t"
    "unat high \<noteq> length x \<longrightarrow> \<not> x ! unat high < t"
  shows "\<exists>l h. search x t low high = Inr (l, h) \<and> h = l + 1 \<and> unat h = unat l + 1
           \<and> unat h \<le> length x
           \<and> (unat l \<noteq> 0 \<longrightarrow> x ! unat l < t)
           \<and> (unat h \<noteq> length x \<longrightarrow> \<not> x ! unat h < t)"
  using assms
proof (induction x t low high rule: search.induct)
  case (1 x t low high)
  show ?case
  proof (cases "1 < high - low")
    case True
    let ?mid = "midpoint low high"
    from True "1.prems"(1) have gap: "1 < unat high - unat low"
      unfolding word_less_nat_alt unat_diff [OF "1.prems"(1)] by simp
    have um: "unat ?mid = unat low + (unat high - unat low) div 2"
      by (rule unat_midpoint [OF "1.prems"(1)])
    from gap um have lo: "unat low < unat ?mid" and hi: "unat ?mid < unat high"
      by arith+
    from hi "1.prems"(2) have rd: "array_at x ?mid = Inr (x ! unat ?mid)"
      by (simp add: array_at_def)
    show ?thesis
    proof (cases "t > x ! unat ?mid")
      case gt: True
      then have step: "search_step x t low high = Inr (?mid, high)"
        by (simp add: search_step_branch rd)
      from gt have l: "unat ?mid \<noteq> 0 \<longrightarrow> x ! unat ?mid < t"
        by simp
      have "search x t low high = search x t ?mid high"
        using True step by (subst search.simps) simp
      with "1.IH" [OF True step refl hi "1.prems"(2) l "1.prems"(4)] show ?thesis
        by simp
    next
      case le: False
      then have step: "search_step x t low high = Inr (low, ?mid)"
        by (simp add: search_step_branch rd)
      from hi "1.prems"(2) have b: "unat ?mid \<le> length x"
        by simp
      from le have r: "unat ?mid \<noteq> length x \<longrightarrow> \<not> x ! unat ?mid < t"
        by simp
      have "search x t low high = search x t low ?mid"
        using True step by (subst search.simps) simp
      with "1.IH" [OF True step refl lo b "1.prems"(3) r] show ?thesis
        by simp
    qed
  next
    case False
    then have "search x t low high = Inr (low, high)"
      by (subst search.simps) simp
    with loop_exit [OF "1.prems"(1) False] "1.prems"(2,3,4) show ?thesis
      by simp
  qed
qed

text \<open>
  From the bounds \<open>get\<close> starts with, for a linear order and \<open>x[0] < t < x[N-1]\<close>: the
  loop cannot end with \<open>high = N\<close>, because then \<open>low = N-1\<close> and \<open>x[N-1] < t\<close>.
\<close>

lemma search_from_init:
  fixes x :: "'a::linorder list"
  assumes arr: "std_array TABLE_SIZE x" and lo: "x ! 0 < t" and hi: "t < x ! (unat TABLE_SIZE - 1)"
  shows "\<exists>l h. search x t 0 TABLE_SIZE = Inr (l, h) \<and> h = l + 1 \<and> unat h = unat l + 1
           \<and> unat h < length x \<and> x ! unat l < t \<and> t \<le> x ! unat h"
proof -
  from lo hi have "unat TABLE_SIZE - 1 \<noteq> 0"
    by (auto intro: ccontr)
  then have n: "unat (0::size_t) < unat TABLE_SIZE"
    by simp
  from arr have len: "length x = unat TABLE_SIZE"
    by (simp add: std_array_def)
  have "\<exists>l h. search x t 0 TABLE_SIZE = Inr (l, h) \<and> h = l + 1 \<and> unat h = unat l + 1
           \<and> unat h \<le> length x
           \<and> (unat l \<noteq> 0 \<longrightarrow> x ! unat l < t)
           \<and> (unat h \<noteq> length x \<longrightarrow> \<not> x ! unat h < t)"
    by (rule search_invariant [OF n]) (simp_all add: len)
  then obtain l h where s: "search x t 0 TABLE_SIZE = Inr (l, h)" "h = l + 1"
    and u: "unat h = unat l + 1" "unat h \<le> length x"
    and i: "unat l \<noteq> 0 \<longrightarrow> x ! unat l < t" "unat h \<noteq> length x \<longrightarrow> \<not> x ! unat h < t"
    by blast
  from i(1) lo have below: "x ! unat l < t"
    by (cases "unat l = 0") simp_all
  have "unat h \<noteq> length x"
  proof
    assume "unat h = length x"
    with u(1) len have "unat l = unat TABLE_SIZE - 1" by simp
    with below hi show False by simp
  qed
  with u(2) i(2) have "unat h < length x" "t \<le> x ! unat h"
    by simp_all
  with s u(1) below show ?thesis
    by simp
qed


subsection \<open>The branchless loop and the branching one\<close>

lemma midpoint_div: "midpoint low high = low + (high - low) div 2"
  by (simp add: midpoint_def drop_bit_eq_div)

lemma search_eq_search_branching:
  "search x t low high = search_branching x t low high"
proof (induction x t low high rule: search.induct)
  case (1 x t low high)
  show ?case
  proof (cases "1 < high - low")
    case False
    then show ?thesis
      by (subst search.simps, subst search_branching.simps) simp
  next
    case True
    let ?mid = "midpoint low high"
    show ?thesis
    proof (cases "array_at x ?mid")
      case (Inl e)
      with True show ?thesis
        by (subst search.simps, subst search_branching.simps)
          (simp add: search_step_branch midpoint_div)
    next
      case (Inr xm)
      show ?thesis
      proof (cases "t > xm")
        case gt: True
        with Inr have step: "search_step x t low high = Inr (?mid, high)"
          by (simp add: search_step_branch)
        from "1.IH" [OF True step refl]
        have "search x t ?mid high = search_branching x t ?mid high" .
        with True Inr gt step show ?thesis
          by (subst search.simps, subst search_branching.simps) (simp add: midpoint_div)
      next
        case le: False
        with Inr have step: "search_step x t low high = Inr (low, ?mid)"
          by (simp add: search_step_branch)
        from "1.IH" [OF True step refl]
        have "search x t low ?mid = search_branching x t low ?mid" .
        with True Inr le step show ?thesis
          by (subst search.simps, subst search_branching.simps) (simp add: midpoint_div)
      qed
    qed
  qed
qed

section \<open>The paths through \<^verbatim>\<open>get\<close>\<close>

lemma new_LookupTable_sel: "m_x (new_LookupTable x f) = x" "m_f (new_LookupTable x f) = f"
  by (simp_all add: new_LookupTable_def)

lemma front_nth: "xs \<noteq> [] \<Longrightarrow> front xs = Inr (xs ! 0)"
  by (simp add: front_def hd_conv_nth)

lemma back_elem_nth: "xs \<noteq> [] \<Longrightarrow> back_elem xs = Inr (xs ! (length xs - 1))"
  by (simp add: back_elem_def last_conv_nth)

lemma get_degenerate:
  "degenerate_table tbl \<Longrightarrow> get num TABLE_SIZE tbl t = Inr 0"
  by (simp add: get_def)

lemma get_clamp_front:
  assumes "std_array TABLE_SIZE x" "std_array TABLE_SIZE f" "0 < unat TABLE_SIZE" "t \<le> x ! 0"
  shows "get num TABLE_SIZE (new_LookupTable x f) t = Inr (f ! 0)"
proof -
  from assms(1-3) have "x \<noteq> []" "f \<noteq> []" "length f = length x"
    by (auto simp: std_array_def)
  with assms(4) show ?thesis
    by (simp add: get_def new_LookupTable_sel degenerate_table_def front_nth)
qed

lemma get_clamp_back:
  assumes "std_array TABLE_SIZE x" "std_array TABLE_SIZE f" "0 < unat TABLE_SIZE"
    "\<not> t \<le> x ! 0" "t \<ge> x ! (unat TABLE_SIZE - 1)"
  shows "get num TABLE_SIZE (new_LookupTable x f) t = Inr (f ! (unat TABLE_SIZE - 1))"
proof -
  from assms(1-3) have "x \<noteq> []" "f \<noteq> []" "length f = length x" "length x = unat TABLE_SIZE"
    by (auto simp: std_array_def)
  with assms(3,4,5) show ?thesis
    by (simp add: get_def new_LookupTable_sel degenerate_table_def front_nth back_elem_nth)
qed

lemma get_inside:
  assumes "std_array TABLE_SIZE x" "std_array TABLE_SIZE f" "0 < unat TABLE_SIZE"
    "\<not> t \<le> x ! 0" "\<not> t \<ge> x ! (unat TABLE_SIZE - 1)"
  shows "get num TABLE_SIZE (new_LookupTable x f) t =
           (case search x t 0 TABLE_SIZE of
              Inl e \<Rightarrow> Inl e
            | Inr (low, high) \<Rightarrow> interpolate num (new_LookupTable x f) t low high)"
proof -
  from assms(1-3) have "x \<noteq> []" "f \<noteq> []" "length f = length x" "length x = unat TABLE_SIZE"
    by (auto simp: std_array_def)
  with assms(3,4,5) show ?thesis
    by (simp add: get_def new_LookupTable_sel degenerate_table_def front_nth back_elem_nth
          search_init_def)
qed

subsection \<open>The interpolation\<close>

lemma defined_Some: "defined (Some v) = Inr v"
  by (simp add: defined_def)


lemma reads_in_range:
  assumes "unat low < length x" "unat high < length x" "length f = length x"
  shows "array_at (m_x (new_LookupTable x f)) high = Inr (x ! unat high)"
    and "array_at (m_x (new_LookupTable x f)) low = Inr (x ! unat low)"
    and "array_at (m_f (new_LookupTable x f)) high = Inr (f ! unat high)"
    and "array_at (m_f (new_LookupTable x f)) low = Inr (f ! unat low)"
  using assms by (simp_all add: new_LookupTable_sel array_at_def)

lemma interpolate_degenerate:
  assumes "unat low < length x" "unat high < length x" "length f = length x"
    and "minus_T num (x ! unat high) (x ! unat low) = Some dx" and "to_double num dx = 0"
  shows "interpolate num (new_LookupTable x f) t low high = Inr 0"
  by (simp add: interpolate_def reads_in_range [OF assms(1-3)] assms(4,5) defined_Some)

lemma interpolate_value:
  assumes "unat low < length x" "unat high < length x" "length f = length x"
    and "minus_T num (x ! unat high) (x ! unat low) = Some dx" and "to_double num dx \<noteq> 0"
    and "minus_T num (f ! unat high) (f ! unat low) = Some df"
    and "times_T num (x ! unat high) (f ! unat low) = Some p"
    and "times_T num (x ! unat low) (f ! unat high) = Some q"
    and "minus_T num p q = Some c"
  shows "interpolate num (new_LookupTable x f) t low high =
           defined (to_T num (to_double num df / to_double num dx * to_double num t
                              + to_double num c / to_double num dx))"
  by (simp add: interpolate_def reads_in_range [OF assms(1-3)] assms(4-9) defined_Some fdiv_def
        Let_def)



text \<open>
  For a linearly ordered element type the two samples at the pair the search returns
  differ, whatever the order of the samples: \<open>x[low] < t \<le> x[high]\<close>.
\<close>

lemma interval_never_degenerate:
  fixes x :: "'a::linorder list"
  assumes "std_array TABLE_SIZE x" "\<not> t \<le> x ! 0" "\<not> t \<ge> x ! (unat TABLE_SIZE - 1)"
    "search x t 0 TABLE_SIZE = Inr (low, high)"
  shows "x ! unat low < x ! unat high"
proof -
  from assms(2,3) have "x ! 0 < t" "t < x ! (unat TABLE_SIZE - 1)"
    by simp_all
  from search_from_init [OF assms(1) this] assms(4)
  have "x ! unat low < t" "t \<le> x ! unat high"
    by auto
  then show ?thesis by simp
qed

subsection \<open>The instances\<close>

lemma double_T_sel:
  "minus_T double_T a b = Some (a - b)" "times_T double_T a b = Some (a * b)"
  "to_double double_T a = a" "to_T double_T d = Some d"
  by (simp_all add: double_T_def)

lemma int_T_sel:
  "minus_T int_T a b = int_range (a - b)" "times_T int_T a b = int_range (a * b)"
  "to_double int_T a = real_of_int a" "to_T int_T d = int_range (towards_zero d)"
  by (simp_all add: int_T_def)

lemmas eval_get = get_def new_LookupTable_sel degenerate_table_def front_def back_elem_def
  search_init_def search.simps search_step_branch midpoint_def array_at_def
  interpolate_def fdiv_def defined_def

text \<open>
  With exact arithmetic and no conversion (an idealised \<^verbatim>\<open>double\<close>) the value of line 96
  is the line through the two samples, evaluated at \<open>t\<close>.
\<close>

lemma line_through_points:
  fixes xl xh fl fh t :: "'a::field"
  assumes "xh - xl \<noteq> 0"
  shows "(fh - fl) / (xh - xl) * t + (xh * fl - xl * fh) / (xh - xl)
         = fl + (fh - fl) / (xh - xl) * (t - xl)"
proof -
  define d where "d = xh - xl"
  with assms have d: "d \<noteq> 0" by simp
  have xh: "xh = d + xl" by (simp add: d_def)
  have "(fh - fl) / d * t + ((d + xl) * fl - xl * fh) / d = fl + (fh - fl) / d * (t - xl)"
    using d by (simp add: field_simps)
  then show ?thesis
    unfolding xh by simp
qed

lemma interpolate_exact:
  fixes x f :: "'a::field list"
  assumes "unat low < length x" "unat high < length x" "length f = length x"
    and "x ! unat high - x ! unat low \<noteq> 0"
  shows "interpolate double_T (new_LookupTable x f) t low high =
           Inr (f ! unat low
                + (f ! unat high - f ! unat low) / (x ! unat high - x ! unat low) * (t - x ! unat low))"
proof -
  have "interpolate double_T (new_LookupTable x f) t low high =
          defined (to_T double_T
            (to_double double_T (f ! unat high - f ! unat low)
               / to_double double_T (x ! unat high - x ! unat low) * to_double double_T t
             + to_double double_T (x ! unat high * f ! unat low - x ! unat low * f ! unat high)
               / to_double double_T (x ! unat high - x ! unat low)))"
    using assms(4) by (intro interpolate_value [OF assms(1-3)]) (simp_all add: double_T_sel)
  also have "\<dots> = Inr ((f ! unat high - f ! unat low) / (x ! unat high - x ! unat low) * t
             + (x ! unat high * f ! unat low - x ! unat low * f ! unat high)
               / (x ! unat high - x ! unat low))"
    by (simp only: double_T_sel defined_Some)
  also have "\<dots> = Inr (f ! unat low
                + (f ! unat high - f ! unat low) / (x ! unat high - x ! unat low) * (t - x ! unat low))"
    by (simp only: line_through_points [OF assms(4)])
  finally show ?thesis .
qed

section \<open>The claims\<close>

text \<open>
  C1. For every table whose independent sequence \<open>x\<close> is sorted (non-decreasing) with
  \<open>N \<ge> 2\<close>, and every query \<open>t\<close> with \<open>x[0] < t < x[N-1]\<close>, the binary-search loop of
  \<open>get\<close> ends (\<open>search\<close> is a total function, and it returns a pair, not an error),
  and at the exit \<open>high = low + 1\<close> and \<open>x[low] \<le> t \<le> x[high]\<close>, both indices being
  within the table.
\<close>

theorem search_terminates_and_brackets:
  fixes x :: "'a::linorder list"
  assumes "std_array TABLE_SIZE x" and "sorted x" and "2 \<le> unat TABLE_SIZE"
    and "x ! 0 < t" and "t < x ! (unat TABLE_SIZE - 1)"
  shows "\<exists>low high.
           search x t (fst (search_init TABLE_SIZE)) (snd (search_init TABLE_SIZE)) = Inr (low, high)
           \<and> high = low + 1 \<and> unat low < unat high \<and> unat high < length x
           \<and> x ! unat low \<le> t \<and> t \<le> x ! unat high"
proof -
  from search_from_init [OF assms(1,4,5)]
  obtain l h where "search x t 0 TABLE_SIZE = Inr (l, h)" "h = l + 1" "unat h = unat l + 1"
    "unat h < length x"
    "x ! unat l < t" "t \<le> x ! unat h"
    by blast
  then show ?thesis
    by (auto simp: search_init_def)
qed

theorem search_terminates_and_brackets_witness:
  "std_array 4 [0, 10, 20, 30 :: real] \<and> sorted [0, 10, 20, 30 :: real]
   \<and> 2 \<le> unat (4 :: size_t)
   \<and> [0, 10, 20, 30 :: real] ! 0 < 15 \<and> (15 :: real) < [0, 10, 20, 30] ! (unat (4 :: size_t) - 1)
   \<and> (\<exists>low high.
         search [0, 10, 20, 30 :: real] 15 (fst (search_init 4)) (snd (search_init 4)) = Inr (low, high)
         \<and> high = low + 1 \<and> unat low < unat high \<and> unat high < length [0, 10, 20, 30 :: real]
         \<and> [0, 10, 20, 30 :: real] ! unat low \<le> 15 \<and> 15 \<le> [0, 10, 20, 30 :: real] ! unat high)"
proof -
  have a: "std_array 4 [0, 10, 20, 30 :: real]"
    by (simp add: std_array_def)
  have s: "sorted [0, 10, 20, 30 :: real]"
    by simp
  have n: "2 \<le> unat (4 :: size_t)"
    by simp
  have l: "[0, 10, 20, 30 :: real] ! 0 < 15"
    by simp
  have h: "(15 :: real) < [0, 10, 20, 30] ! (unat (4 :: size_t) - 1)"
    by simp
  from search_terminates_and_brackets [OF a s n l h] a s n l h show ?thesis
    by blast
qed

text \<open>
  C2, as the specification states it: \<open>get(t)\<close> returns
  \<open>(f[high] - f[low]) / denom * t + (x[high] * f[low] - x[low] * f[high]) / denom\<close>, the
  line through the two samples at \<open>t\<close>. The value of that expression is computed in
  \<^verbatim>\<open>double\<close> and converted to the element type by \<^verbatim>\<open>return\<close>. For \<^verbatim>\<open>T = int\<close>,
  \<open>x = [0, 10]\<close>, \<open>f = [0, 5]\<close> and \<open>t = 5\<close> the expression is \<open>5/2\<close> and \<open>get\<close> returns 2.
\<close>

theorem get_interpolates_counterexample:
  "std_array 2 [0, 10 :: int] \<and> std_array 2 [0, 5 :: int] \<and> sorted [0, 10 :: int]
   \<and> 2 \<le> unat (2 :: size_t)
   \<and> [0, 10 :: int] ! 0 < 5 \<and> (5 :: int) < [0, 10] ! (unat (2 :: size_t) - 1)
   \<and> search [0, 10 :: int] 5 (fst (search_init 2)) (snd (search_init 2)) = Inr (0, 1)
   \<and> [0, 10 :: int] ! unat (1 :: size_t) - [0, 10] ! unat (0 :: size_t) \<noteq> 0
   \<and> get int_T 2 (new_LookupTable [0, 10] [0, 5]) 5 = Inr 2
   \<and> real_of_int 2 \<noteq> (5 - 0) / (10 - 0) * 5 + (10 * 0 - 0 * 5) / (10 - 0)"
  by (simp add: std_array_def eval_get int_T_sel int_range_def towards_zero_def)

text \<open>
  C2, amended. For every table with \<open>x\<close> sorted (non-decreasing), \<open>N \<ge> 2\<close>, and every \<open>t\<close>
  with \<open>x[0] < t < x[N-1]\<close>, let \<open>(low, high)\<close> be the pair the search of \<open>get\<close> returns
  and \<open>denom\<close> the conversion to \<^verbatim>\<open>double\<close> of \<open>x[high] - x[low]\<close>. If \<open>denom\<close> is not zero
  and the differences and products \<open>f[high] - f[low]\<close>, \<open>x[high] * f[low]\<close>,
  \<open>x[low] * f[high]\<close> and the difference of the two products are defined in the element
  type, then \<open>get(t)\<close> returns the conversion to the element type of
  \<open>(f[high] - f[low]) / denom * t + (x[high] * f[low] - x[low] * f[high]) / denom\<close>,
  evaluated in \<^verbatim>\<open>double\<close> (an error of the model where that conversion is undefined).
  This holds for every arithmetic of the two types; it is the line through the two
  samples only as far as that arithmetic is exact and the conversion is the identity.
\<close>

theorem get_interpolates:
  fixes x f :: "'a::{linorder,zero} list"
    and num :: "('a, 'd::{zero,plus,times,inverse}) numeric"
  assumes "std_array TABLE_SIZE x" and "std_array TABLE_SIZE f" and "sorted x"
    and "2 \<le> unat TABLE_SIZE" and "x ! 0 < t" and "t < x ! (unat TABLE_SIZE - 1)"
    and "search x t (fst (search_init TABLE_SIZE)) (snd (search_init TABLE_SIZE)) = Inr (low, high)"
    and "minus_T num (x ! unat high) (x ! unat low) = Some dx" and "to_double num dx \<noteq> 0"
    and "minus_T num (f ! unat high) (f ! unat low) = Some df"
    and "times_T num (x ! unat high) (f ! unat low) = Some p"
    and "times_T num (x ! unat low) (f ! unat high) = Some q"
    and "minus_T num p q = Some c"
  shows "get num TABLE_SIZE (new_LookupTable x f) t =
           defined (to_T num (to_double num df / to_double num dx * to_double num t
                              + to_double num c / to_double num dx))"
proof -
  from assms(4) have n: "0 < unat TABLE_SIZE" by simp
  from assms(5,6) have lo: "\<not> t \<le> x ! 0" and hi: "\<not> t \<ge> x ! (unat TABLE_SIZE - 1)"
    by simp_all
  from assms(7) have s: "search x t 0 TABLE_SIZE = Inr (low, high)"
    by (simp add: search_init_def)
  from search_from_init [OF assms(1,5,6)] s
  have b: "unat high = unat low + 1" "unat high < length x"
    by auto
  then have bl: "unat low < length x" by simp
  from assms(1,2) have len: "length f = length x" by (simp add: std_array_def)
  show ?thesis
    by (simp add: get_inside [OF assms(1,2) n lo hi] s
          interpolate_value [OF bl b(2) len assms(8-13)])
qed

theorem get_interpolates_witness:
  "std_array 4 [0, 10, 20, 30 :: real] \<and> std_array 4 [0, 100, 50, 200 :: real]
   \<and> sorted [0, 10, 20, 30 :: real] \<and> 2 \<le> unat (4 :: size_t)
   \<and> [0, 10, 20, 30 :: real] ! 0 < 15 \<and> (15 :: real) < [0, 10, 20, 30] ! (unat (4 :: size_t) - 1)
   \<and> search [0, 10, 20, 30 :: real] 15 (fst (search_init 4)) (snd (search_init 4)) = Inr (1, 2)
   \<and> minus_T double_T ([0, 10, 20, 30 :: real] ! unat (2 :: size_t))
        ([0, 10, 20, 30] ! unat (1 :: size_t)) = Some 10
   \<and> to_double double_T (10 :: real) \<noteq> (0 :: real)
   \<and> minus_T double_T ([0, 100, 50, 200 :: real] ! unat (2 :: size_t))
        ([0, 100, 50, 200] ! unat (1 :: size_t)) = Some (- 50)
   \<and> times_T double_T ([0, 10, 20, 30 :: real] ! unat (2 :: size_t))
        ([0, 100, 50, 200] ! unat (1 :: size_t)) = Some 2000
   \<and> times_T double_T ([0, 10, 20, 30 :: real] ! unat (1 :: size_t))
        ([0, 100, 50, 200] ! unat (2 :: size_t)) = Some 500
   \<and> minus_T double_T (2000 :: real) 500 = Some 1500
   \<and> get double_T 4 (new_LookupTable [0, 10, 20, 30] [0, 100, 50, 200]) (15 :: real) = Inr 75"
proof -
  have ax: "std_array 4 [0, 10, 20, 30 :: real]" and af: "std_array 4 [0, 100, 50, 200 :: real]"
    by (simp_all add: std_array_def)
  have so: "sorted [0, 10, 20, 30 :: real]"
    by simp
  have n: "2 \<le> unat (4 :: size_t)"
    by simp
  have lo: "[0, 10, 20, 30 :: real] ! 0 < 15"
    and hi: "(15 :: real) < [0, 10, 20, 30] ! (unat (4 :: size_t) - 1)"
    by simp_all
  have se: "search [0, 10, 20, 30 :: real] 15 (fst (search_init 4)) (snd (search_init 4)) = Inr (1, 2)"
    by (simp add: search_init_def search.simps search_step_branch midpoint_def array_at_def)
  have dx: "minus_T double_T ([0, 10, 20, 30 :: real] ! unat (2 :: size_t))
        ([0, 10, 20, 30] ! unat (1 :: size_t)) = Some 10"
    and nz: "to_double double_T (10 :: real) \<noteq> (0 :: real)"
    and df: "minus_T double_T ([0, 100, 50, 200 :: real] ! unat (2 :: size_t))
        ([0, 100, 50, 200] ! unat (1 :: size_t)) = Some (- 50)"
    and p: "times_T double_T ([0, 10, 20, 30 :: real] ! unat (2 :: size_t))
        ([0, 100, 50, 200] ! unat (1 :: size_t)) = Some 2000"
    and q: "times_T double_T ([0, 10, 20, 30 :: real] ! unat (1 :: size_t))
        ([0, 100, 50, 200] ! unat (2 :: size_t)) = Some 500"
    and c: "minus_T double_T (2000 :: real) 500 = Some 1500"
    by (simp_all add: double_T_sel)
  from get_interpolates [OF ax af so n lo hi se dx nz df p q c]
  have "get double_T 4 (new_LookupTable [0, 10, 20, 30] [0, 100, 50, 200]) (15 :: real) = Inr 75"
    by (simp add: double_T_sel defined_Some)
  with ax af so n lo hi se dx nz df p q c show ?thesis
    by blast
qed

text \<open>
  C3. For every state of the search, with \<open>cmp\<close> either 0 or 1: the mask the code
  computes from \<open>cmp\<close> is all ones when \<open>cmp = 1\<close> and all zeros when \<open>cmp = 0\<close>, and
  the masked updates \<open>(mid & mask) | (low & ~mask)\<close> and \<open>(mid & ~mask) | (high & mask)\<close>
  equal the branching updates \<open>cmp ? mid : low\<close> and \<open>cmp ? high : mid\<close>. Hence the
  branchless search returns what the ordinary branching binary search returns from the
  same initial bounds (the same pair, or the same error).
\<close>

theorem branchless_search_refines_branching:
  fixes x :: "'a::ord list" and cmp mid low high :: size_t
  shows "(cmp = 0 \<or> cmp = 1 \<longrightarrow>
            mask_of cmp = (if cmp = 1 then NOT 0 else 0)
          \<and> select_low mid low (mask_of cmp) = (if cmp = 1 then mid else low)
          \<and> select_high mid high (mask_of cmp) = (if cmp = 1 then high else mid))
       \<and> search x t low0 high0 = search_branching x t low0 high0"
proof -
  have "mask_of 0 = 0" "mask_of 1 = NOT 0"
    by (simp_all add: mask_of_def)
  then show ?thesis
    by (auto simp: search_eq_search_branching select_low_def select_high_def)
qed

theorem branchless_search_refines_branching_witness:
  "((1::size_t) = 0 \<or> (1::size_t) = 1)
   \<and> mask_of 1 = NOT 0
   \<and> select_low 3 0 (mask_of 1) = 3
   \<and> select_high 3 9 (mask_of 1) = 9
   \<and> search [0, 10, 20, 30 :: real] 15 0 4 = Inr (1, 2)
   \<and> search_branching [0, 10, 20, 30 :: real] 15 0 4 = Inr (1, 2)"
proof -
  have s: "search [0, 10, 20, 30 :: real] 15 0 4 = Inr (1, 2)"
    by (simp add: search.simps search_step_branch midpoint_def array_at_def)
  from branchless_search_refines_branching [of 1 3 0 9 "[0, 10, 20, 30 :: real]" 15 0 4] s
  show ?thesis
    by (simp add: select_low_def select_high_def)
qed

text \<open>
  C4, as the specification states it: for every non-empty table and every \<open>t\<close>, if
  \<open>t \<le> x[0]\<close> then \<open>get(t) = f[0]\<close>, and if \<open>t \<ge> x[N-1]\<close> then \<open>get(t) = f[N-1]\<close>. The
  two cases overlap when \<open>x[N-1] \<le> t \<le> x[0]\<close>; the code tests \<open>t \<le> x[0]\<close> first
  (line 40). On the sorted table \<open>x = [5, 5]\<close>, \<open>f = [1, 2]\<close> the query \<open>5 = x[N-1]\<close>
  returns \<open>f[0] = 1\<close>, not \<open>f[N-1] = 2\<close>.
\<close>

theorem clamp_both_counterexample:
  "std_array 2 [5, 5 :: real] \<and> std_array 2 [1, 2 :: real] \<and> sorted [5, 5 :: real]
   \<and> 1 \<le> unat (2 :: size_t)
   \<and> (5 :: real) \<ge> [5, 5] ! (unat (2 :: size_t) - 1)
   \<and> get double_T 2 (new_LookupTable [5, 5] [1, 2]) (5 :: real) = Inr ([1, 2] ! 0)
   \<and> get double_T 2 (new_LookupTable [5, 5] [1, 2]) (5 :: real)
        \<noteq> Inr ([1, 2] ! (unat (2 :: size_t) - 1))"
  by (simp add: std_array_def get_def new_LookupTable_sel degenerate_table_def front_def)

text \<open>
  C4, amended. For every non-empty table (\<open>N \<ge> 1\<close>, both arrays of length \<open>N\<close>), every
  element type and every query \<open>t\<close>: if \<open>t \<le> x[0]\<close> then \<open>get(t) = f[0]\<close>; if \<open>t \<le> x[0]\<close>
  is false and \<open>t \<ge> x[N-1]\<close> then \<open>get(t) = f[N-1]\<close>. In particular \<open>get(x[0]) = f[0]\<close>
  when \<open>x[0] \<le> x[0]\<close> (it is not a NaN), and \<open>get(x[N-1]) = f[N-1]\<close> when
  \<open>x[N-1] \<le> x[0]\<close> is false and \<open>x[N-1] \<ge> x[N-1]\<close> (for ordered values:
  \<open>x[0] < x[N-1]\<close>). The value returned by a clamp is a sample of \<open>f\<close>, unconverted;
  nothing is extrapolated.
\<close>

theorem get_clamps:
  fixes x f :: "'a::{ord,zero} list"
    and num :: "('a, 'd::{zero,plus,times,inverse}) numeric"
  assumes "std_array TABLE_SIZE x" and "std_array TABLE_SIZE f" and "1 \<le> unat TABLE_SIZE"
  shows "(t \<le> x ! 0 \<longrightarrow> get num TABLE_SIZE (new_LookupTable x f) t = Inr (f ! 0))
       \<and> (\<not> t \<le> x ! 0 \<and> t \<ge> x ! (unat TABLE_SIZE - 1) \<longrightarrow>
            get num TABLE_SIZE (new_LookupTable x f) t = Inr (f ! (unat TABLE_SIZE - 1)))
       \<and> (x ! 0 \<le> x ! 0 \<longrightarrow> get num TABLE_SIZE (new_LookupTable x f) (x ! 0) = Inr (f ! 0))
       \<and> (\<not> x ! (unat TABLE_SIZE - 1) \<le> x ! 0
            \<and> x ! (unat TABLE_SIZE - 1) \<ge> x ! (unat TABLE_SIZE - 1) \<longrightarrow>
            get num TABLE_SIZE (new_LookupTable x f) (x ! (unat TABLE_SIZE - 1))
              = Inr (f ! (unat TABLE_SIZE - 1)))"
proof -
  from assms(3) have n: "0 < unat TABLE_SIZE" by simp
  have cf: "get num TABLE_SIZE (new_LookupTable x f) s = Inr (f ! 0)" if "s \<le> x ! 0" for s
    using that by (rule get_clamp_front [OF assms(1,2) n])
  have cb: "get num TABLE_SIZE (new_LookupTable x f) s = Inr (f ! (unat TABLE_SIZE - 1))"
    if "\<not> s \<le> x ! 0" "s \<ge> x ! (unat TABLE_SIZE - 1)" for s
    using that by (rule get_clamp_back [OF assms(1,2) n])
  show ?thesis
    using cf cb by simp
qed

theorem get_clamps_witness:
  "std_array 4 [0, 10, 20, 30 :: real] \<and> std_array 4 [0, 100, 50, 200 :: real]
   \<and> 1 \<le> unat (4 :: size_t)
   \<and> (-5 :: real) \<le> [0, 10, 20, 30] ! 0
   \<and> get double_T 4 (new_LookupTable [0, 10, 20, 30] [0, 100, 50, 200]) (-5 :: real) = Inr 0
   \<and> \<not> (35 :: real) \<le> [0, 10, 20, 30] ! 0
   \<and> (35 :: real) \<ge> [0, 10, 20, 30] ! (unat (4 :: size_t) - 1)
   \<and> get double_T 4 (new_LookupTable [0, 10, 20, 30] [0, 100, 50, 200]) (35 :: real) = Inr 200
   \<and> [0, 10, 20, 30 :: real] ! 0 \<le> [0, 10, 20, 30] ! 0
   \<and> get double_T 4 (new_LookupTable [0, 10, 20, 30] [0, 100, 50, 200]) (0 :: real) = Inr 0
   \<and> \<not> [0, 10, 20, 30 :: real] ! (unat (4 :: size_t) - 1) \<le> [0, 10, 20, 30] ! 0
   \<and> [0, 10, 20, 30 :: real] ! (unat (4 :: size_t) - 1) \<ge> [0, 10, 20, 30] ! (unat (4 :: size_t) - 1)
   \<and> get double_T 4 (new_LookupTable [0, 10, 20, 30] [0, 100, 50, 200]) (30 :: real) = Inr 200
   \<and> std_array 2 [NaN, Num 1 :: real fp] \<and> std_array 2 [Num 1, Num 2 :: real fp]
   \<and> \<not> Num 5 \<le> [NaN, Num 1 :: real fp] ! 0
   \<and> Num 5 \<ge> [NaN, Num 1 :: real fp] ! (unat (2 :: size_t) - 1)
   \<and> get double_T 2 (new_LookupTable [NaN, Num 1] [Num 1, Num 2]) (Num 5 :: real fp) = Inr (Num 2)"
proof -
  have ax: "std_array 4 [0, 10, 20, 30 :: real]" and af: "std_array 4 [0, 100, 50, 200 :: real]"
    and bx: "std_array 2 [NaN, Num 1 :: real fp]" and bf: "std_array 2 [Num 1, Num 2 :: real fp]"
    by (simp_all add: std_array_def)
  have n: "1 \<le> unat (4 :: size_t)" and m: "1 \<le> unat (2 :: size_t)"
    by simp_all
  from get_clamps [OF ax af n, of "-5" double_T] get_clamps [OF ax af n, of 35 double_T]
    get_clamps [OF bx bf m, of "Num 5" double_T] ax af bx bf
  show ?thesis
    by simp
qed

text \<open>
  C5. \<open>get\<close> returns the zero of the element type, and no error, in each degenerate
  case: for every query when \<open>N = 0\<close> or the two arrays differ in length; and for a
  query that reaches the search (neither clamp fires) when the interval \<open>(low, high)\<close>
  the search returns is degenerate: the difference \<open>x[high] - x[low]\<close>, converted to
  \<^verbatim>\<open>double\<close>, is zero. The statement holds for every element type and arithmetic.
  (With a linear order the two samples differ, see \<open>interval_never_degenerate\<close>; the
  instance below reaches the case with a NaN query.)
\<close>

theorem get_zero_fallback:
  fixes tbl :: "'a::{ord,zero} LookupTable" and x f :: "'a list"
    and num :: "('a, 'd::{zero,plus,times,inverse}) numeric"
  shows "(length (m_x tbl) = 0 \<or> length (m_f tbl) \<noteq> length (m_x tbl) \<longrightarrow>
            get num TABLE_SIZE tbl t = Inr 0)
       \<and> (std_array TABLE_SIZE x \<and> std_array TABLE_SIZE f
            \<and> \<not> t \<le> x ! 0 \<and> \<not> t \<ge> x ! (unat TABLE_SIZE - 1)
            \<and> search x t (fst (search_init TABLE_SIZE)) (snd (search_init TABLE_SIZE)) = Inr (low, high)
            \<and> unat low < unat TABLE_SIZE \<and> unat high < unat TABLE_SIZE
            \<and> minus_T num (x ! unat high) (x ! unat low) = Some dx \<and> to_double num dx = 0 \<longrightarrow>
            get num TABLE_SIZE (new_LookupTable x f) t = Inr 0)"
proof (intro conjI impI)
  assume "length (m_x tbl) = 0 \<or> length (m_f tbl) \<noteq> length (m_x tbl)"
  then have "degenerate_table tbl"
    by (simp add: degenerate_table_def)
  then show "get num TABLE_SIZE tbl t = Inr 0"
    by (rule get_degenerate)
next
  assume h: "std_array TABLE_SIZE x \<and> std_array TABLE_SIZE f
            \<and> \<not> t \<le> x ! 0 \<and> \<not> t \<ge> x ! (unat TABLE_SIZE - 1)
            \<and> search x t (fst (search_init TABLE_SIZE)) (snd (search_init TABLE_SIZE)) = Inr (low, high)
            \<and> unat low < unat TABLE_SIZE \<and> unat high < unat TABLE_SIZE
            \<and> minus_T num (x ! unat high) (x ! unat low) = Some dx \<and> to_double num dx = 0"
  then have ax: "std_array TABLE_SIZE x" and af: "std_array TABLE_SIZE f"
    and lo: "\<not> t \<le> x ! 0" and hi: "\<not> t \<ge> x ! (unat TABLE_SIZE - 1)"
    and n: "0 < unat TABLE_SIZE"
    by simp_all
  from h have s: "search x t 0 TABLE_SIZE = Inr (low, high)"
    by (simp add: search_init_def)
  from h ax af have b: "unat low < length x" "unat high < length x" "length f = length x"
    by (simp_all add: std_array_def)
  from h have z: "minus_T num (x ! unat high) (x ! unat low) = Some dx" "to_double num dx = 0"
    by simp_all
  show "get num TABLE_SIZE (new_LookupTable x f) t = Inr 0"
    by (simp add: get_inside [OF ax af n lo hi] s interpolate_degenerate [OF b z])
qed

theorem get_zero_fallback_witness:
  "length (m_x (new_LookupTable [] ([] :: real list))) = 0
   \<and> get double_T 0 (new_LookupTable [] []) (7 :: real) = Inr 0
   \<and> length (m_f (new_LookupTable [1, 2, 3] [1, 2 :: real]))
        \<noteq> length (m_x (new_LookupTable [1, 2, 3] [1, 2 :: real]))
   \<and> get double_T 3 (new_LookupTable [1, 2, 3] [1, 2]) (7 :: real) = Inr 0
   \<and> std_array 2 [Num 5, Num 5 :: real fp] \<and> std_array 2 [Num 1, Num 2 :: real fp]
   \<and> \<not> NaN \<le> [Num 5, Num 5 :: real fp] ! 0
   \<and> \<not> NaN \<ge> [Num 5, Num 5 :: real fp] ! (unat (2 :: size_t) - 1)
   \<and> search [Num 5, Num 5 :: real fp] NaN (fst (search_init 2)) (snd (search_init 2)) = Inr (0, 1)
   \<and> unat (0 :: size_t) < unat (2 :: size_t) \<and> unat (1 :: size_t) < unat (2 :: size_t)
   \<and> minus_T double_T ([Num 5, Num 5 :: real fp] ! unat (1 :: size_t))
        ([Num 5, Num 5] ! unat (0 :: size_t)) = Some 0
   \<and> to_double double_T (0 :: real fp) = (0 :: real fp)
   \<and> get double_T 2 (new_LookupTable [Num 5, Num 5] [Num 1, Num 2]) (NaN :: real fp) = Inr 0"
proof -
  have e: "length (m_x (new_LookupTable [] ([] :: real list))) = 0"
    by (simp add: new_LookupTable_sel)
  have m: "length (m_f (new_LookupTable [1, 2, 3] [1, 2 :: real]))
        \<noteq> length (m_x (new_LookupTable [1, 2, 3] [1, 2 :: real]))"
    by (simp add: new_LookupTable_sel)
  have d: "std_array 2 [Num 5, Num 5 :: real fp] \<and> std_array 2 [Num 1, Num 2 :: real fp]
     \<and> \<not> NaN \<le> [Num 5, Num 5 :: real fp] ! 0
     \<and> \<not> NaN \<ge> [Num 5, Num 5 :: real fp] ! (unat (2 :: size_t) - 1)
     \<and> search [Num 5, Num 5 :: real fp] NaN (fst (search_init 2)) (snd (search_init 2)) = Inr (0, 1)
     \<and> unat (0 :: size_t) < unat (2 :: size_t) \<and> unat (1 :: size_t) < unat (2 :: size_t)
     \<and> minus_T double_T ([Num 5, Num 5 :: real fp] ! unat (1 :: size_t))
          ([Num 5, Num 5] ! unat (0 :: size_t)) = Some 0
     \<and> to_double double_T (0 :: real fp) = (0 :: real fp)"
    by (simp add: std_array_def search_init_def search.simps search_step_branch midpoint_def
          array_at_def zero_fp_def double_T_sel)
  from
    get_zero_fallback [of "new_LookupTable [] ([] :: real list)" double_T 0 7,
      THEN conjunct1, rule_format]
    get_zero_fallback [of "new_LookupTable [1, 2, 3] [1, 2 :: real]" double_T 3 7,
      THEN conjunct1, rule_format]
    get_zero_fallback [where ?'a = "real fp" and num = double_T, THEN conjunct2, rule_format, OF d]
    e m d
  show ?thesis
    by simp
qed




text \<open>
  The table of the last instance, for \<^verbatim>\<open>T = int\<close>: line 96 multiplies
  \<open>x[high] * f[low] = 100000 * 100000\<close> in \<^verbatim>\<open>int\<close>.
\<close>

lemma get_int_overflow:
  "get int_T 2 (new_LookupTable [0, 100000] [100000, 0]) 50000 = Inl UndefinedArithmetic"
  by (simp add: eval_get int_T_sel int_range_def)

text \<open>
  C7, as the specification states it: the search begins with \<open>low = 0\<close> and
  \<open>high = N - 1\<close>. Line 50 sets \<open>high = TABLE_SIZE\<close>.
\<close>

theorem search_init_high_counterexample:
  "std_array 4 [0, 10, 20, 30 :: real]
   \<and> [0, 10, 20, 30 :: real] ! 0 < 15 \<and> (15 :: real) < [0, 10, 20, 30] ! (unat (4 :: size_t) - 1)
   \<and> search_init (4 :: size_t) = (0, 4)
   \<and> search_init (4 :: size_t) \<noteq> (0, 4 - 1)"
  by (simp add: std_array_def search_init_def)

text \<open>
  C7, amended. When \<open>t\<close> lies strictly inside \<open>(x[0], x[N-1])\<close>, the search begins with
  \<open>low = 0\<close> and \<open>high = N\<close>, the table size: one past the last valid index (a read at
  it would be out of bounds), an exclusive upper bound. \<open>get\<close> runs the loop from these
  bounds, and the loop ends with \<open>high \<le> N - 1\<close>.
\<close>

theorem search_starts_at_table_size:
  fixes x f :: "'a::{linorder,zero} list"
    and num :: "('a, 'd::{zero,plus,times,inverse}) numeric"
  assumes "std_array TABLE_SIZE x" and "std_array TABLE_SIZE f"
    and "x ! 0 < t" and "t < x ! (unat TABLE_SIZE - 1)"
  shows "search_init TABLE_SIZE = (0, TABLE_SIZE)
       \<and> array_at x (snd (search_init TABLE_SIZE)) = Inl OutOfBounds
       \<and> get num TABLE_SIZE (new_LookupTable x f) t =
           (case search x t 0 TABLE_SIZE of
              Inl e \<Rightarrow> Inl e
            | Inr (low, high) \<Rightarrow> interpolate num (new_LookupTable x f) t low high)
       \<and> (\<exists>low high. search x t 0 TABLE_SIZE = Inr (low, high) \<and> unat high \<le> unat TABLE_SIZE - 1)"
proof -
  from assms(3,4) have lo: "\<not> t \<le> x ! 0" and hi: "\<not> t \<ge> x ! (unat TABLE_SIZE - 1)"
    by simp_all
  from assms(3,4) have "unat TABLE_SIZE - 1 \<noteq> 0"
    by (auto intro: ccontr)
  then have n: "0 < unat TABLE_SIZE"
    by simp
  have "array_at x TABLE_SIZE = Inl OutOfBounds"
    using assms(1) by (simp add: array_at_def std_array_def)
  moreover from search_from_init [OF assms(1,3,4)] assms(1)
  have "\<exists>low high. search x t 0 TABLE_SIZE = Inr (low, high) \<and> unat high \<le> unat TABLE_SIZE - 1"
    by (auto simp: std_array_def)
  ultimately show ?thesis
    by (simp add: search_init_def get_inside [OF assms(1,2) n lo hi])
qed

theorem search_starts_at_table_size_witness:
  "std_array 4 [0, 10, 20, 30 :: real] \<and> std_array 4 [0, 100, 50, 200 :: real]
   \<and> [0, 10, 20, 30 :: real] ! 0 < 15 \<and> (15 :: real) < [0, 10, 20, 30] ! (unat (4 :: size_t) - 1)
   \<and> search_init (4 :: size_t) = (0, 4)
   \<and> array_at [0, 10, 20, 30 :: real] (snd (search_init 4)) = Inl OutOfBounds
   \<and> (\<exists>low high. search [0, 10, 20, 30 :: real] 15 0 4 = Inr (low, high)
         \<and> unat high \<le> unat (4 :: size_t) - 1)"
proof -
  have ax: "std_array 4 [0, 10, 20, 30 :: real]" and af: "std_array 4 [0, 100, 50, 200 :: real]"
    by (simp_all add: std_array_def)
  have lo: "[0, 10, 20, 30 :: real] ! 0 < 15"
    and hi: "(15 :: real) < [0, 10, 20, 30] ! (unat (4 :: size_t) - 1)"
    by simp_all
  from search_starts_at_table_size [OF ax af lo hi, where num = "double_T :: (real, real) numeric"]
    ax af lo hi
  show ?thesis
    by blast
qed

text \<open>
  C9. For the table \<open>x = [0, 10, 20, 30]\<close>, \<open>f = [0, 100, 50, 200]\<close> over any linearly
  ordered field (\<^verbatim>\<open>T = double\<close>; all intermediate values are small integers, so the
  arithmetic of \<^verbatim>\<open>double\<close> is exact on them): \<open>get(-5) = 0\<close>, \<open>get(0) = 0\<close>,
  \<open>get(5) = 50\<close>, \<open>get(10) = 100\<close>, \<open>get(15) = 75\<close>, \<open>get(30) = 200\<close> and
  \<open>get(35) = 200\<close>.
\<close>

theorem get_concrete_scenario:
  "get double_T 4 (new_LookupTable [0, 10, 20, 30] [0, 100, 50, 200]) (- 5 :: 'a::linordered_field) = Inr 0
   \<and> get double_T 4 (new_LookupTable [0, 10, 20, 30] [0, 100, 50, 200]) (0 :: 'a) = Inr 0
   \<and> get double_T 4 (new_LookupTable [0, 10, 20, 30] [0, 100, 50, 200]) (5 :: 'a) = Inr 50
   \<and> get double_T 4 (new_LookupTable [0, 10, 20, 30] [0, 100, 50, 200]) (10 :: 'a) = Inr 100
   \<and> get double_T 4 (new_LookupTable [0, 10, 20, 30] [0, 100, 50, 200]) (15 :: 'a) = Inr 75
   \<and> get double_T 4 (new_LookupTable [0, 10, 20, 30] [0, 100, 50, 200]) (30 :: 'a) = Inr 200
   \<and> get double_T 4 (new_LookupTable [0, 10, 20, 30] [0, 100, 50, 200]) (35 :: 'a) = Inr 200"
proof -
  let ?tbl = "new_LookupTable [0, 10, 20, 30] [0, 100, 50, 200 :: 'a]"
  note defs = eval_get double_T_sel
  have "get double_T 4 ?tbl (- 5) = Inr 0" by (simp add: defs)
  moreover have "get double_T 4 ?tbl 0 = Inr 0" by (simp add: defs)
  moreover have "get double_T 4 ?tbl 5 = Inr 50" by (simp add: defs)
  moreover have "get double_T 4 ?tbl 10 = Inr 100" by (simp add: defs)
  moreover have "get double_T 4 ?tbl 15 = Inr 75" by (simp add: defs)
  moreover have "get double_T 4 ?tbl 30 = Inr 200" by (simp add: defs)
  moreover have "get double_T 4 ?tbl 35 = Inr 200" by (simp add: defs)
  ultimately show ?thesis by simp
qed

text \<open>
  C10. A table built by the constructor from two values of type
  \<^verbatim>\<open>std::array<T, TABLE_SIZE>\<close> stores two sequences of length \<^verbatim>\<open>TABLE_SIZE\<close>, so
  \<^verbatim>\<open>m_f.size() == m_x.size()\<close>; the arm \<^verbatim>\<open>m_f.size() != m_x.size()\<close> of the guard of line
  34 never holds, and the guard holds exactly when \<^verbatim>\<open>TABLE_SIZE == 0\<close>.
\<close>

theorem constructor_equal_lengths:
  assumes "std_array TABLE_SIZE x" and "std_array TABLE_SIZE f"
  shows "length (m_x (new_LookupTable x f)) = unat TABLE_SIZE
       \<and> length (m_f (new_LookupTable x f)) = unat TABLE_SIZE
       \<and> length (m_f (new_LookupTable x f)) = length (m_x (new_LookupTable x f))
       \<and> degenerate_table (new_LookupTable x f) = (TABLE_SIZE = 0)"
  using assms
  by (simp add: std_array_def new_LookupTable_sel degenerate_table_def unat_eq_0)

theorem constructor_equal_lengths_witness:
  "std_array 4 [0, 10, 20, 30 :: real] \<and> std_array 4 [0, 100, 50, 200 :: real]
   \<and> length (m_x (new_LookupTable [0, 10, 20, 30 :: real] [0, 100, 50, 200])) = unat (4 :: size_t)
   \<and> length (m_f (new_LookupTable [0, 10, 20, 30 :: real] [0, 100, 50, 200])) = unat (4 :: size_t)
   \<and> \<not> degenerate_table (new_LookupTable [0, 10, 20, 30 :: real] [0, 100, 50, 200])
   \<and> std_array 0 ([] :: real list)
   \<and> degenerate_table (new_LookupTable ([] :: real list) [])"
proof -
  have a: "std_array 4 [0, 10, 20, 30 :: real]" "std_array 4 [0, 100, 50, 200 :: real]"
    and z: "std_array 0 ([] :: real list)"
    by (simp_all add: std_array_def)
  from constructor_equal_lengths [OF a] constructor_equal_lengths [OF z z] a z show ?thesis
    by simp
qed

end
